theory Spec2Isabelle
  imports Main "HOL-Library.Multiset"
begin

section \<open>The user controller of the Updog backend\<close>

text \<open>
  The development embeds \<^verbatim>\<open>backend/server/controllers/user.js\<close>: the handlers
  \<^verbatim>\<open>addUser\<close>, \<^verbatim>\<open>authenticateUser\<close>, \<^verbatim>\<open>getUserActivity\<close>,
  \<^verbatim>\<open>modifyUserByUsername\<close> and \<^verbatim>\<open>deleteUserByUsername\<close>. A handler is a
  function on the store and a trace of the steps it has run; a \<^verbatim>\<open>throw\<close> is the
  \<open>Inl\<close> branch of its result, and \<^verbatim>\<open>try { ... } catch (error) { ... }\<close> is
  \<open>try_catch\<close>. The sixth handler, \<^verbatim>\<open>getUsersByUsername\<close>, only reads the store
  and answers with a DTO; it is not embedded.
\<close>

subsection \<open>Rows of the store\<close>

text \<open>
  Only the columns the controller reads or writes are kept. Timestamps are the numeric
  values of the \<^verbatim>\<open>createdAt\<close> dates, which is what \<^verbatim>\<open><\<close> compares.
\<close>

record user =
  user_id :: nat
  username :: string
  email :: string
  password :: string
  nickname :: "string option"

record post =
  post_id :: nat
  author :: nat
  post_createdAt :: int

record shared_post =
  shared_id :: nat
  shared_userID :: nat
  shared_postId :: nat
  shared_createdAt :: int

record liked_post =
  liked_id :: nat
  liked_userID :: nat
  liked_postId :: nat
  liked_createdAt :: int

text \<open>
  The registry \<^verbatim>\<open>models\<close> imported from \<^verbatim>\<open>database/models\<close>. Its source is not
  part of the controller, so it is an input: the properties \<^verbatim>\<open>users\<close>,
  \<^verbatim>\<open>posts\<close>, \<^verbatim>\<open>sharedPost\<close> and \<^verbatim>\<open>likedPost\<close> are the tables of the data model,
  and \<open>userOfInterest\<close> is the value of the property \<^verbatim>\<open>models.userOfInterest\<close> that
  line 198 reads: \<open>None\<close> when the registry defines no model of that name (JavaScript's
  \<^verbatim>\<open>undefined\<close>), and the rows of that model otherwise.
\<close>

record models =
  users :: "user list"
  posts :: "post list"
  sharedPost :: "shared_post list"
  likedPost :: "liked_post list"
  userOfInterest :: "user list option"

subsection \<open>Requests, responses, errors\<close>

record body =
  b_username :: string
  b_email :: string
  b_password :: string
  b_nickname :: "string option"

text \<open>
  \<open>authorization\<close> is \<^verbatim>\<open>req.get('Authorization')\<close> (\<open>None\<close> for an absent header),
  \<open>param_username\<close> is \<^verbatim>\<open>req.params.username\<close>.
\<close>

record request =
  authorization :: "string option"
  param_username :: string
  req_body :: body

datatype error = TypeError | ERR_HTTP_HEADERS_SENT | ValidationError | TokenError

fun error_toString :: "error \<Rightarrow> string" where
  "error_toString TypeError = ''TypeError''"
| "error_toString ERR_HTTP_HEADERS_SENT = ''Error [ERR_HTTP_HEADERS_SENT]''"
| "error_toString ValidationError = ''SequelizeValidationError''"
| "error_toString TokenError = ''JsonWebTokenError''"

datatype activity_kind = POSTED | SHARED | LIKED

record activity =
  kind :: activity_kind
  postId :: nat
  timestamp :: int

text \<open>
  The bodies the controller sends: \<^verbatim>\<open>{error: s}\<close>, \<^verbatim>\<open>{'Error message': s}\<close>, a plain
  text, \<^verbatim>\<open>{message, authToken}\<close>, the activity array, and a raw error object.
\<close>

datatype payload =
    ErrorField string
  | ErrorMessage string
  | Text string
  | TokenMessage string string
  | ActivityList "activity list"
  | RawError error

datatype column = Username | Email

datatype table = Posts | SharedPosts | LikedPosts

text \<open>The steps of a handler that reach outside it, in the order they run.\<close>

datatype step =
    FindOne column string
  | FindAll table nat
  | Create string
  | Update string
  | Destroy string
  | ExtractUser "string option"
  | Send nat payload

subsection \<open>Collaborators that are inputs\<close>

text \<open>
  What \<^verbatim>\<open>Authentication.extractUser\<close> can do with its argument: throw, return a falsy
  value, or return a decoded payload whose \<^verbatim>\<open>id\<close> property may be missing.
\<close>

datatype extracted = Thrown error | Falsy | Decoded "nat option"

text \<open>
  A comparator returns a JavaScript number; \<^verbatim>\<open>Array.prototype.sort\<close> takes a
  comparator and an array.
\<close>

type_synonym 'a comparefn = "'a \<Rightarrow> 'a \<Rightarrow> int"

type_synonym 'a array_sort = "'a comparefn \<Rightarrow> 'a list \<Rightarrow> 'a list"

text \<open>
  The middleware \<^verbatim>\<open>Authentication\<close>, the instance method \<^verbatim>\<open>validatePassword\<close>, the
  password hook and the e-mail validator of the \<^verbatim>\<open>users\<close> model, and the sort of the
  JavaScript engine are not code of the controller: the handlers take them as an
  environment. So is what the relational store holds when a statement reaches it: the
  handler awaits between its lookup and \<^verbatim>\<open>destroy\<close>, and \<open>concurrent_writes\<close> is
  what other requests have done to the users table in between (the identity when the
  request runs alone). It decides the row count the store reports for the
  \<^verbatim>\<open>destroy\<close>.
\<close>

record env =
  extractUser :: "string option \<Rightarrow> extracted"
  generateAuthToken :: "user \<Rightarrow> string"
  validatePassword :: "user \<Rightarrow> string \<Rightarrow> bool"
  hashPassword :: "string \<Rightarrow> string"
  isEmail :: "string \<Rightarrow> bool"
  array_sort :: "activity array_sort"
  concurrent_writes :: "user list \<Rightarrow> user list"

subsection \<open>Handlers as state transformers with exceptions\<close>

record hstate =
  store :: models
  trace :: "step list"

type_synonym 'a handler = "hstate \<Rightarrow> (error + 'a) \<times> hstate"

definition return :: "'a \<Rightarrow> 'a handler" where
  "return x h = (Inr x, h)"

definition throw :: "error \<Rightarrow> 'a handler" where
  "throw e h = (Inl e, h)"

definition bind :: "'a handler \<Rightarrow> ('a \<Rightarrow> 'b handler) \<Rightarrow> 'b handler" where
  "bind m f h = (case m h of (Inl e, h') \<Rightarrow> (Inl e, h') | (Inr x, h') \<Rightarrow> f x h')"

definition try_catch :: "'a handler \<Rightarrow> (error \<Rightarrow> 'a handler) \<Rightarrow> 'a handler" where
  "try_catch m c h = (case m h of (Inl e, h') \<Rightarrow> c e h' | (Inr x, h') \<Rightarrow> (Inr x, h'))"

definition record_step :: "step \<Rightarrow> hstate \<Rightarrow> hstate" where
  "record_step s h = h\<lparr>trace := trace h @ [s]\<rparr>"

fun is_Send :: "step \<Rightarrow> bool" where
  "is_Send (Send c p) = True"
| "is_Send _ = False"

text \<open>
  \<^verbatim>\<open>res.status(code).send(payload)\<close>. Express writes the first response to the client;
  a later \<^verbatim>\<open>send\<close> on the same response throws \<^verbatim>\<open>ERR_HTTP_HEADERS_SENT\<close>.
\<close>

definition send :: "nat \<Rightarrow> payload \<Rightarrow> unit handler" where
  "send code p h =
     (if list_ex is_Send (trace h) then (Inl ERR_HTTP_HEADERS_SENT, h)
      else (Inr (), record_step (Send code p) h))"

fun column_of :: "column \<Rightarrow> user \<Rightarrow> string" where
  "column_of Username u = username u"
| "column_of Email u = email u"

text \<open>\<^verbatim>\<open>models.users.findOne({where: {column: v}})\<close>: the first matching row, or null.\<close>

definition findOne :: "column \<Rightarrow> string \<Rightarrow> user option handler" where
  "findOne c v h =
     (Inr (find (\<lambda>u. column_of c u = v) (users (store h))), record_step (FindOne c v) h)"

definition findAll_posts :: "nat \<Rightarrow> post list handler" where
  "findAll_posts uid h =
     (Inr (filter (\<lambda>p. author p = uid) (posts (store h))), record_step (FindAll Posts uid) h)"

definition findAll_sharedPost :: "nat \<Rightarrow> shared_post list handler" where
  "findAll_sharedPost uid h =
     (Inr (filter (\<lambda>p. shared_userID p = uid) (sharedPost (store h))),
      record_step (FindAll SharedPosts uid) h)"

definition findAll_likedPost :: "nat \<Rightarrow> liked_post list handler" where
  "findAll_likedPost uid h =
     (Inr (filter (\<lambda>p. liked_userID p = uid) (likedPost (store h))),
      record_step (FindAll LikedPosts uid) h)"

definition next_id :: "user list \<Rightarrow> nat" where
  "next_id us = Suc (fold max (map user_id us) 0)"

text \<open>
  \<^verbatim>\<open>models.users.create({username, nickname, email, password})\<close>: the model validates the
  e-mail address and rejects the row when it is malformed; otherwise it stores the row
  with a fresh id and the hashed password, and returns it.
\<close>

definition create :: "env \<Rightarrow> body \<Rightarrow> user handler" where
  "create env b h =
     (if isEmail env (b_email b) then
        (let u = \<lparr>user_id = next_id (users (store h)), username = b_username b,
                  email = b_email b, password = hashPassword env (b_password b),
                  nickname = b_nickname b\<rparr>
         in (Inr u, record_step (Create (b_username b))
                      (h\<lparr>store := (store h)\<lparr>users := users (store h) @ [u]\<rparr>\<rparr>)))
      else (Inl ValidationError, record_step (Create (b_username b)) h))"

text \<open>
  \<^verbatim>\<open>models.users.destroy({where: {username}})\<close>: the store removes the matching rows
  of the table it holds at that moment and reports how many it removed.
\<close>

definition destroy :: "env \<Rightarrow> string \<Rightarrow> nat handler" where
  "destroy env name h =
     (let rows = concurrent_writes env (users (store h))
      in (Inr (length (filter (\<lambda>u. username u = name) rows)),
          record_step (Destroy name)
            (h\<lparr>store := (store h)\<lparr>users := filter (\<lambda>u. username u \<noteq> name) rows\<rparr>\<rparr>)))"

definition apply_fields :: "body \<Rightarrow> user \<Rightarrow> user" where
  "apply_fields b u =
     u\<lparr>nickname := (case b_nickname b of None \<Rightarrow> nickname u | Some n \<Rightarrow> Some n),
       email := b_email b, password := b_password b\<rparr>"

text \<open>
  \<^verbatim>\<open>models.userOfInterest.update({nickname, email, password}, {returning: true, where:
  {username}})\<close>. Reading \<^verbatim>\<open>.update\<close> of \<^verbatim>\<open>undefined\<close> throws a TypeError before any
  call is made. A model's \<^verbatim>\<open>update\<close> resolves to the array
  \<^verbatim>\<open>[affectedCount, ...]\<close>; the result here is that count.
\<close>

definition update_userOfInterest :: "body \<Rightarrow> string \<Rightarrow> nat handler" where
  "update_userOfInterest b name h =
     (case userOfInterest (store h) of
        None \<Rightarrow> (Inl TypeError, h)
      | Some rows \<Rightarrow>
          (Inr (length (filter (\<lambda>u. username u = name) rows)),
           record_step (Update name)
             (h\<lparr>store := (store h)\<lparr>userOfInterest :=
                  Some (map (\<lambda>u. if username u = name then apply_fields b u else u) rows)\<rparr>\<rparr>)))"

text \<open>\<^verbatim>\<open>if (updatedUser)\<close> tests an array, and every array is truthy.\<close>

definition array_truthy :: "nat \<Rightarrow> bool" where
  "array_truthy affectedCount = True"

text \<open>\<^verbatim>\<open>!authToken\<close>: an absent header and the empty string are falsy.\<close>

definition no_token :: "string option \<Rightarrow> bool" where
  "no_token t = (case t of None \<Rightarrow> True | Some s \<Rightarrow> s = [])"

text \<open>
  \<^verbatim>\<open>Authentication.extractUser(authToken)\<close>; the result is \<open>None\<close> for a falsy value and
  the payload's \<^verbatim>\<open>id\<close> property otherwise.
\<close>

definition call_extractUser :: "env \<Rightarrow> string option \<Rightarrow> nat option option handler" where
  "call_extractUser env t h =
     (case extractUser env t of
        Thrown e \<Rightarrow> (Inl e, record_step (ExtractUser t) h)
      | Falsy \<Rightarrow> (Inr None, record_step (ExtractUser t) h)
      | Decoded i \<Rightarrow> (Inr (Some i), record_step (ExtractUser t) h))"

text \<open>
  Modelled from the spec: \<^verbatim>\<open>Activity.convertToActivity\<close> of \<^verbatim>\<open>enums/activity\<close> is not
  among the sources. By the data model an ActivityEntry is \<open>{kind, postId, timestamp}\<close>,
  built from the three arguments.
\<close>

definition convertToActivity :: "activity_kind \<Rightarrow> nat \<Rightarrow> int \<Rightarrow> activity" where
  "convertToActivity k p t = \<lparr>kind = k, postId = p, timestamp = t\<rparr>"

text \<open>The comparator of line 158: \<^verbatim>\<open>(a, b) => (a.timestamp < b.timestamp) ? 1 : -1\<close>.\<close>

definition by_timestamp :: "activity comparefn" where
  "by_timestamp a b = (if timestamp a < timestamp b then 1 else - 1)"

subsection \<open>The handlers\<close>

definition addUser :: "env \<Rightarrow> request \<Rightarrow> unit handler" where
  "addUser env req =
     try_catch
       (bind (findOne Username (b_username (req_body req))) (\<lambda>duplicateUsername.
          if duplicateUsername \<noteq> None then send 409 (ErrorField ''Username already taken'')
          else
            bind (findOne Email (b_email (req_body req))) (\<lambda>duplicateEmail.
              if duplicateEmail \<noteq> None
              then send 409 (ErrorField ''Email has already been taken'')
              else
                bind (create env (req_body req)) (\<lambda>createUser.
                  send 201 (TokenMessage ''User successfully created''
                              (generateAuthToken env createUser))))))
       (\<lambda>error. send 500 (RawError error))"

definition authenticateUser :: "env \<Rightarrow> request \<Rightarrow> unit handler" where
  "authenticateUser env req =
     try_catch
       (bind (findOne Email (b_email (req_body req))) (\<lambda>found.
          case found of
            None \<Rightarrow> send 401 (ErrorField ''Incorrect email or password'')
          | Some u \<Rightarrow>
              if \<not> validatePassword env u (b_password (req_body req))
              then send 401 (ErrorField ''Incorrect email or password'')
              else send 200 (TokenMessage ''Authentication successful''
                               (generateAuthToken env u))))
       (\<lambda>error. send 500 (ErrorMessage (error_toString error)))"

definition getUserActivity :: "env \<Rightarrow> request \<Rightarrow> unit handler" where
  "getUserActivity env req =
     try_catch
       (bind (findOne Username (param_username req)) (\<lambda>userOfInterest.
        bind (if no_token (authorization req)
              then send 400 (ErrorMessage ''Auth token not provided'') else return ()) (\<lambda>_.
        bind (call_extractUser env (authorization req)) (\<lambda>loggedInUser.
          if loggedInUser = None then send 401 (ErrorMessage ''Auth token invalid'')
          else
            case userOfInterest of
              None \<Rightarrow> throw TypeError
            | Some u \<Rightarrow>
                bind (findAll_posts (user_id u)) (\<lambda>posts.
                bind (findAll_sharedPost (user_id u)) (\<lambda>sharedPosts.
                bind (findAll_likedPost (user_id u)) (\<lambda>likedPosts.
                  let postsActivity =
                        map (\<lambda>p. convertToActivity POSTED (post_id p) (post_createdAt p)) posts;
                      sharedPostsActivity =
                        map (\<lambda>p. convertToActivity SHARED (shared_postId p) (shared_createdAt p))
                          sharedPosts;
                      likedPostsActivity =
                        map (\<lambda>p. convertToActivity LIKED (liked_postId p) (liked_createdAt p))
                          likedPosts;
                      activity = array_sort env by_timestamp
                        (postsActivity @ likedPostsActivity @ sharedPostsActivity)
                  in send 200 (ActivityList activity))))))))
       (\<lambda>error. send 500 (ErrorMessage (error_toString error)))"

definition modifyUserByUsername :: "env \<Rightarrow> request \<Rightarrow> unit handler" where
  "modifyUserByUsername env req =
     try_catch
       (bind (findOne Username (param_username req)) (\<lambda>userOfInterest.
        bind (if no_token (authorization req)
              then send 400 (ErrorMessage ''Auth token not provided'') else return ()) (\<lambda>_.
        bind (call_extractUser env (authorization req)) (\<lambda>loggedInUser.
          if loggedInUser = None then send 401 (ErrorMessage ''Auth token invalid'')
          else if userOfInterest = None then send 404 (Text ''Invalid username.'')
          else
            bind (update_userOfInterest (req_body req) (param_username req)) (\<lambda>updatedUser.
              if array_truthy updatedUser
              then send 200 (Text ''The profile has been updated.'')
              else send 500 (Text ''Failed to update the profile.''))))))
       (\<lambda>error. send 500 (RawError error))"

definition deleteUserByUsername :: "env \<Rightarrow> request \<Rightarrow> unit handler" where
  "deleteUserByUsername env req =
     try_catch
       (bind (findOne Username (param_username req)) (\<lambda>userOfInterest.
        bind (if no_token (authorization req)
              then send 400 (ErrorMessage ''Auth token not provided'') else return ()) (\<lambda>_.
        bind (call_extractUser env (authorization req)) (\<lambda>loggedInUser.
          if loggedInUser = None then send 401 (ErrorMessage ''Auth token invalid'')
          else if userOfInterest = None then send 404 (Text ''Invalid username.'')
          else
            bind (destroy env (param_username req)) (\<lambda>deleteUser.
              if deleteUser \<noteq> 0
              then send 200 (Text ''The user has been deleted.'')
              else send 500 (Text ''Failed to destroy the user.''))))))
       (\<lambda>error. send 500 (RawError error))"

subsection \<open>Running a handler\<close>

definition run :: "unit handler \<Rightarrow> models \<Rightarrow> (error + unit) \<times> hstate" where
  "run m db = m \<lparr>store = db, trace = []\<rparr>"

text \<open>The response the client receives: the first \<open>Send\<close> of the trace.\<close>

fun first_send :: "step list \<Rightarrow> (nat \<times> payload) option" where
  "first_send [] = None"
| "first_send (Send c p # ss) = Some (c, p)"
| "first_send (s # ss) = first_send ss"

definition response :: "(error + unit) \<times> hstate \<Rightarrow> (nat \<times> payload) option" where
  "response out = first_send (trace (snd out))"

definition final_store :: "(error + unit) \<times> hstate \<Rightarrow> models" where
  "final_store out = store (snd out)"

definition steps :: "(error + unit) \<times> hstate \<Rightarrow> step list" where
  "steps out = trace (snd out)"

subsection \<open>The engine's sort\<close>

text \<open>
  \<^verbatim>\<open>Array.prototype.sort\<close> belongs to the JavaScript engine. The comparator of line 158
  never returns 0 and answers \<open>-1\<close> in both directions for two entries of equal
  timestamp, so what the engine does with such a comparator decides the result. Two
  engines are written out.

  \<open>InsertionSort\<close> is the insertion sort of V8 before version 7.0 (Node.js 10 and
  earlier, arrays of at most ten elements): it takes the elements from left to right and
  moves \<^verbatim>\<open>element\<close> below each \<^verbatim>\<open>tmp\<close> of the sorted part for which
  \<^verbatim>\<open>comparefn(tmp, element) > 0\<close>, stopping at the first other one. The sorted part
  is kept last element first, which is the order the inner loop visits it in.
\<close>

fun insert_element :: "'a comparefn \<Rightarrow> 'a \<Rightarrow> 'a list \<Rightarrow> 'a list" where
  "insert_element c element [] = [element]"
| "insert_element c element (tmp # below) =
     (if c tmp element > 0 then tmp # insert_element c element below
      else element # tmp # below)"

definition InsertionSort :: "'a array_sort" where
  "InsertionSort c a = rev (fold (insert_element c) a [])"

text \<open>
  \<open>ArrayTimSort\<close> is the sort of V8 from version 7.0 on (Node.js 11 and later) as it
  runs on an array of fewer than 64 elements, where the minimal run length is the array
  length: \<^verbatim>\<open>CountAndMakeRun\<close> finds the run at the start of the array, the order of the
  first two elements deciding whether it is taken as descending, and reverses a
  descending run; \<^verbatim>\<open>BinaryInsertionSort\<close> then inserts each remaining element at the
  place a binary search finds. Longer arrays are cut into several runs that are merged;
  the merge is not written out, and the procedure below is applied whatever the length.
\<close>

fun count_run :: "'a comparefn \<Rightarrow> bool \<Rightarrow> 'a \<Rightarrow> 'a list \<Rightarrow> nat" where
  "count_run c isDescending previousElement [] = 0"
| "count_run c isDescending previousElement (currentElement # rest) =
     (let order = c currentElement previousElement
      in if (if isDescending then order \<ge> 0 else order < 0) then 0
         else Suc (count_run c isDescending currentElement rest))"

fun CountAndMakeRun :: "'a comparefn \<Rightarrow> 'a list \<Rightarrow> nat \<times> 'a list" where
  "CountAndMakeRun c [] = (0, [])"
| "CountAndMakeRun c [x] = (1, [x])"
| "CountAndMakeRun c (elementHigh # elementLow # rest) =
     (let isDescending = (c elementLow elementHigh < 0);
          runLength = 2 + count_run c isDescending elementLow rest;
          a = elementHigh # elementLow # rest
      in (runLength, if isDescending then rev (take runLength a) @ drop runLength a else a))"

text \<open>
  The binary search is only called with \<open>right \<le> length a\<close>, so \<open>a ! mid\<close> is always
  an element of the array.
\<close>

function binary_search :: "'a comparefn \<Rightarrow> 'a \<Rightarrow> 'a list \<Rightarrow> nat \<Rightarrow> nat \<Rightarrow> nat" where
  "binary_search c pivot a left right =
     (if left < right then
        (let mid = left + (right - left) div 2
         in if c pivot (a ! mid) < 0 then binary_search c pivot a left mid
            else binary_search c pivot a (mid + 1) right)
      else left)"
  by pat_completeness auto
termination
  by (relation "measure (\<lambda>(c, pivot, a, left, right). right - left)") auto

declare binary_search.simps [simp del]

definition binary_insert :: "'a comparefn \<Rightarrow> 'a \<Rightarrow> 'a list \<Rightarrow> 'a list" where
  "binary_insert c pivot a =
     (let left = binary_search c pivot a 0 (length a) in take left a @ pivot # drop left a)"

definition BinaryInsertionSort :: "'a comparefn \<Rightarrow> 'a list \<Rightarrow> 'a list \<Rightarrow> 'a list" where
  "BinaryInsertionSort c sorted_run rest = fold (binary_insert c) rest sorted_run"

definition ArrayTimSort :: "'a array_sort" where
  "ArrayTimSort c a =
     (if length a < 2 then a
      else (let (runLength, b) = CountAndMakeRun c a
            in BinaryInsertionSort c (take runLength b) (drop runLength b)))"

text \<open>
  What the handlers need of an engine: given a comparator that never returns 0 and whose
  negative answers form a total and transitive relation, the result is a permutation of
  the array in which every element is put before every later one by the comparator.
\<close>

definition engine_sorts :: "'a array_sort \<Rightarrow> bool" where
  "engine_sorts srt \<longleftrightarrow>
     (\<forall>c xs. (\<forall>a b. c a b \<noteq> 0) \<and> (\<forall>a b. c a b < 0 \<or> c b a < 0)
              \<and> (\<forall>a b d. c a b < 0 \<and> c b d < 0 \<longrightarrow> c a d < 0)
        \<longrightarrow> mset (srt c xs) = mset xs \<and> sorted_wrt (\<lambda>a b. c a b < 0) (srt c xs))"

subsection \<open>A reference environment and store\<close>

text \<open>
  Concrete collaborators on which the handlers can be evaluated. A token is the user's id
  in unary; \<open>ref_extractUser\<close> reads it after the \<^verbatim>\<open>Bearer\<close> prefix and throws on
  anything else, as a verifying decoder does. \<open>lenient_extractUser\<close> returns a payload
  without \<^verbatim>\<open>id\<close> instead of throwing, the shape \<^verbatim>\<open>getUsersByUsername\<close> tests for with
  \<^verbatim>\<open>!decodedUser.id\<close>. The e-mail validator asks for an \<^verbatim>\<open>@\<close>; the address
  \<^verbatim>\<open>qweqwewq\<close> of the test suite is rejected by it. The request runs alone.
\<close>

definition ref_extractUser :: "string option \<Rightarrow> extracted" where
  "ref_extractUser t =
     (case t of
        None \<Rightarrow> Thrown TypeError
      | Some s \<Rightarrow>
          if take 7 s = ''Bearer '' then Decoded (Some (length (drop 7 s)))
          else Thrown TokenError)"

definition lenient_extractUser :: "string option \<Rightarrow> extracted" where
  "lenient_extractUser t =
     (case t of
        None \<Rightarrow> Decoded None
      | Some s \<Rightarrow>
          if take 7 s = ''Bearer '' then Decoded (Some (length (drop 7 s)))
          else Decoded None)"

definition ref_env :: env where
  "ref_env =
     \<lparr>extractUser = ref_extractUser,
      generateAuthToken = (\<lambda>u. replicate (user_id u) (CHR ''x'')),
      validatePassword = (\<lambda>u p. password u = CHR ''#'' # p),
      hashPassword = (\<lambda>p. CHR ''#'' # p),
      isEmail = (\<lambda>s. CHR ''@'' \<in> set s),
      array_sort = InsertionSort,
      concurrent_writes = (\<lambda>rows. rows)\<rparr>"

definition alice :: user where
  "alice = \<lparr>user_id = 1, username = ''alice'', email = ''alice@updog.nz'',
             password = ''#PASSWORD'', nickname = None\<rparr>"

definition bob :: user where
  "bob = \<lparr>user_id = 2, username = ''bob'', email = ''bob@updog.nz'',
           password = ''#hunter2'', nickname = Some ''Bobby''\<rparr>"

text \<open>
  Alice has written post 10 and has liked and shared Bob's post 11; her post and her like
  carry the same timestamp.
\<close>

definition ref_db :: models where
  "ref_db =
     \<lparr>users = [alice, bob],
      posts = [\<lparr>post_id = 10, author = 1, post_createdAt = 300\<rparr>,
               \<lparr>post_id = 11, author = 2, post_createdAt = 100\<rparr>],
      sharedPost = [\<lparr>shared_id = 20, shared_userID = 1, shared_postId = 11,
                     shared_createdAt = 500\<rparr>],
      likedPost = [\<lparr>liked_id = 30, liked_userID = 1, liked_postId = 11,
                    liked_createdAt = 300\<rparr>],
      userOfInterest = None\<rparr>"

definition no_body :: body where
  "no_body = \<lparr>b_username = [], b_email = [], b_password = [], b_nickname = None\<rparr>"

text \<open>A sign-up or log-in request, and a request on a target user with a given header.\<close>

definition credentials :: "string \<Rightarrow> string \<Rightarrow> string \<Rightarrow> request" where
  "credentials name mail pw =
     \<lparr>authorization = None, param_username = [],
      req_body = \<lparr>b_username = name, b_email = mail, b_password = pw, b_nickname = None\<rparr>\<rparr>"

definition on_target :: "string option \<Rightarrow> string \<Rightarrow> request" where
  "on_target header name = \<lparr>authorization = header, param_username = name, req_body = no_body\<rparr>"

definition profile_update :: "string option \<Rightarrow> string \<Rightarrow> request" where
  "profile_update header name =
     \<lparr>authorization = header, param_username = name,
      req_body = \<lparr>b_username = [], b_email = ''al@updog.nz'', b_password = ''s3cret'',
                  b_nickname = Some ''Al''\<rparr>\<rparr>"

text \<open>Whether a stored row already has a username or an e-mail address.\<close>

abbreviation username_taken :: "models \<Rightarrow> string \<Rightarrow> bool" where
  "username_taken db name \<equiv> \<exists>u\<in>set (users db). username u = name"

abbreviation email_taken :: "models \<Rightarrow> string \<Rightarrow> bool" where
  "email_taken db mail \<equiv> \<exists>u\<in>set (users db). email u = mail"

text \<open>The reference environment with the decoder that does not throw.\<close>

definition lenient_env :: env where
  "lenient_env = ref_env\<lparr>extractUser := lenient_extractUser\<rparr>"


text \<open>
  A store in which three rows share one e-mail address, as the rows that the test suite
  creates under \<^verbatim>\<open>TEST@GMAIL.COM\<close> do.
\<close>

definition ann :: user where
  "ann = \<lparr>user_id = 1, username = ''ann'', email = ''TEST@GMAIL.COM'',
           password = ''#PASSWORD'', nickname = None\<rparr>"

definition ben :: user where
  "ben = \<lparr>user_id = 2, username = ''ben'', email = ''TEST@GMAIL.COM'',
           password = ''#PASSWORD'', nickname = None\<rparr>"

definition cat :: user where
  "cat = \<lparr>user_id = 3, username = ''cat'', email = ''TEST@GMAIL.COM'',
           password = ''#hunter2'', nickname = None\<rparr>"

definition shared_email_db :: models where
  "shared_email_db = ref_db\<lparr>users := [ann, ben, cat]\<rparr>"

text \<open>The reference environment on V8's current sort.\<close>

definition v8_env :: env where
  "v8_env = ref_env\<lparr>array_sort := ArrayTimSort\<rparr>"

text \<open>
  The three entry sequences of \<^verbatim>\<open>getUserActivity\<close> for a target user \<open>u\<close>:
  \<^verbatim>\<open>postsActivity\<close>, \<^verbatim>\<open>likedPostsActivity\<close> and \<^verbatim>\<open>sharedPostsActivity\<close>.
\<close>

abbreviation posted_entries :: "models \<Rightarrow> user \<Rightarrow> activity list" where
  "posted_entries db u \<equiv>
     map (\<lambda>p. \<lparr>kind = POSTED, postId = post_id p, timestamp = post_createdAt p\<rparr>)
       (filter (\<lambda>p. author p = user_id u) (posts db))"

abbreviation liked_entries :: "models \<Rightarrow> user \<Rightarrow> activity list" where
  "liked_entries db u \<equiv>
     map (\<lambda>p. \<lparr>kind = LIKED, postId = liked_postId p, timestamp = liked_createdAt p\<rparr>)
       (filter (\<lambda>p. liked_userID p = user_id u) (likedPost db))"

abbreviation shared_entries :: "models \<Rightarrow> user \<Rightarrow> activity list" where
  "shared_entries db u \<equiv>
     map (\<lambda>p. \<lparr>kind = SHARED, postId = shared_postId p, timestamp = shared_createdAt p\<rparr>)
       (filter (\<lambda>p. shared_userID p = user_id u) (sharedPost db))"

section \<open>Properties\<close>

subsection \<open>Evaluation rules\<close>

lemmas handler_defs =
  run_def bind_def try_catch_def send_def findOne_def record_step_def response_def
  final_store_def steps_def

lemmas guard_defs = call_extractUser_def return_def no_token_def

lemmas activity_defs =
  findAll_posts_def findAll_sharedPost_def findAll_likedPost_def convertToActivity_def

lemmas ref_defs = ref_env_def ref_db_def alice_def bob_def ref_extractUser_def

lemmas fixture_defs = on_target_def no_body_def no_token_def

lemma find_username_None: "find (\<lambda>u. username u = name) (users db) = None \<longleftrightarrow> \<not> username_taken db name"
  by (auto simp: find_None_iff)

lemma find_email_None: "find (\<lambda>u. email u = mail) (users db) = None \<longleftrightarrow> \<not> email_taken db mail"
  by (auto simp: find_None_iff)

subsection \<open>Creating a user\<close>

text \<open>The four ways \<^verbatim>\<open>addUser\<close> can end, with the steps it has run.\<close>

lemma addUser_run:
  "run (addUser env req) db =
     (if username_taken db (b_username (req_body req))
      then (Inr (), \<lparr>store = db,
              trace = [FindOne Username (b_username (req_body req)),
                       Send 409 (ErrorField ''Username already taken'')]\<rparr>)
      else if email_taken db (b_email (req_body req))
      then (Inr (), \<lparr>store = db,
              trace = [FindOne Username (b_username (req_body req)),
                       FindOne Email (b_email (req_body req)),
                       Send 409 (ErrorField ''Email has already been taken'')]\<rparr>)
      else if isEmail env (b_email (req_body req))
      then (let u = \<lparr>user_id = next_id (users db), username = b_username (req_body req),
                      email = b_email (req_body req),
                      password = hashPassword env (b_password (req_body req)),
                      nickname = b_nickname (req_body req)\<rparr>
            in (Inr (), \<lparr>store = db\<lparr>users := users db @ [u]\<rparr>,
                  trace = [FindOne Username (b_username (req_body req)),
                           FindOne Email (b_email (req_body req)),
                           Create (b_username (req_body req)),
                           Send 201 (TokenMessage ''User successfully created''
                                       (generateAuthToken env u))]\<rparr>))
      else (Inr (), \<lparr>store = db,
              trace = [FindOne Username (b_username (req_body req)),
                       FindOne Email (b_email (req_body req)),
                       Create (b_username (req_body req)),
                       Send 500 (RawError ValidationError)]\<rparr>))"
proof -
  let ?byName = "find (\<lambda>u. username u = b_username (req_body req)) (users db)"
  let ?byMail = "find (\<lambda>u. email u = b_email (req_body req)) (users db)"
  have name: "?byName = None \<longleftrightarrow> \<not> username_taken db (b_username (req_body req))"
    by (rule find_username_None)
  have mail: "?byMail = None \<longleftrightarrow> \<not> email_taken db (b_email (req_body req))"
    by (rule find_email_None)
  show ?thesis
  proof (cases ?byName)
    case (Some u)
    with name show ?thesis by (simp add: addUser_def handler_defs create_def)
  next
    case None
    note noName = this
    show ?thesis
    proof (cases ?byMail)
      case (Some v)
      with noName name mail show ?thesis by (simp add: addUser_def handler_defs create_def)
    next
      case None
      with noName name mail show ?thesis by (simp add: addUser_def handler_defs create_def Let_def)
    qed
  qed
qed

text \<open>
  C10. In create-user the username check is decided before the e-mail check: when the
  requested username and the requested e-mail address are both taken, the response is
  the 409 username error, the steps run are the username lookup and that response (the
  e-mail lookup is not reached), and the store is unchanged.
\<close>

theorem addUser_username_first:
  assumes "username_taken db (b_username (req_body req))"
      and "email_taken db (b_email (req_body req))"
  shows "response (run (addUser env req) db) = Some (409, ErrorField ''Username already taken'')
       \<and> steps (run (addUser env req) db) =
           [FindOne Username (b_username (req_body req)),
            Send 409 (ErrorField ''Username already taken'')]
       \<and> final_store (run (addUser env req) db) = db"
  using assms(1) by (simp add: addUser_run response_def steps_def final_store_def)

theorem addUser_username_first_witness:
  "username_taken ref_db ''alice'' \<and> email_taken ref_db ''bob@updog.nz''
   \<and> response (run (addUser ref_env (credentials ''alice'' ''bob@updog.nz'' ''pw'')) ref_db)
       = Some (409, ErrorField ''Username already taken'')
   \<and> steps (run (addUser ref_env (credentials ''alice'' ''bob@updog.nz'' ''pw'')) ref_db)
       = [FindOne Username ''alice'', Send 409 (ErrorField ''Username already taken'')]
   \<and> final_store (run (addUser ref_env (credentials ''alice'' ''bob@updog.nz'' ''pw'')) ref_db)
       = ref_db"
proof -
  have name: "username_taken ref_db (b_username (req_body (credentials ''alice'' ''bob@updog.nz'' ''pw'')))"
    by (simp add: ref_defs credentials_def)
  have mail: "email_taken ref_db (b_email (req_body (credentials ''alice'' ''bob@updog.nz'' ''pw'')))"
    by (simp add: ref_defs credentials_def)
  have "b_username (req_body (credentials ''alice'' ''bob@updog.nz'' ''pw'')) = ''alice''"
    and "b_email (req_body (credentials ''alice'' ''bob@updog.nz'' ''pw'')) = ''bob@updog.nz''"
    by (simp_all add: credentials_def)
  with name mail addUser_username_first [OF name mail, of ref_env] show ?thesis by simp
qed

text \<open>
  C9, as stated, fails: a request whose username and e-mail address are both free is not
  always answered 201. The \<^verbatim>\<open>users\<close> model validates the address inside
  \<^verbatim>\<open>create\<close>; for the malformed address of the test suite \<^verbatim>\<open>create\<close> throws, the
  handler's \<^verbatim>\<open>catch\<close> answers 500, and no row is written.
\<close>

theorem addUser_malformed_email_counterexample:
  "\<not> username_taken ref_db ''carol'' \<and> \<not> email_taken ref_db ''qweqwewq''
   \<and> response (run (addUser ref_env (credentials ''carol'' ''qweqwewq'' ''PASSWORD'')) ref_db)
       = Some (500, RawError ValidationError)
   \<and> final_store (run (addUser ref_env (credentials ''carol'' ''qweqwewq'' ''PASSWORD'')) ref_db)
       = ref_db"
  by (simp add: addUser_run response_def final_store_def ref_defs credentials_def)

text \<open>
  C9, amended. For every create-user request: if a stored row has the requested username
  the response is 409 (username taken) and no row is written; otherwise, if a stored row
  has the requested e-mail address the response is 409 (e-mail taken) and no row is
  written; otherwise, if the address passes the model's validation, one new row with a
  fresh id and the hashed password is appended and the response is 201 with an auth token
  generated for that row; and if the address fails the validation the response is 500
  and no row is written.
\<close>

theorem addUser_outcomes:
  "(username_taken db (b_username (req_body req)) \<longrightarrow>
      response (run (addUser env req) db) = Some (409, ErrorField ''Username already taken'')
      \<and> final_store (run (addUser env req) db) = db)
   \<and> (\<not> username_taken db (b_username (req_body req))
        \<and> email_taken db (b_email (req_body req)) \<longrightarrow>
      response (run (addUser env req) db)
        = Some (409, ErrorField ''Email has already been taken'')
      \<and> final_store (run (addUser env req) db) = db)
   \<and> (\<not> username_taken db (b_username (req_body req))
        \<and> \<not> email_taken db (b_email (req_body req))
        \<and> isEmail env (b_email (req_body req)) \<longrightarrow>
      (let created = \<lparr>user_id = next_id (users db), username = b_username (req_body req),
                        email = b_email (req_body req),
                        password = hashPassword env (b_password (req_body req)),
                        nickname = b_nickname (req_body req)\<rparr>
       in response (run (addUser env req) db)
            = Some (201, TokenMessage ''User successfully created''
                           (generateAuthToken env created))
          \<and> final_store (run (addUser env req) db) = db\<lparr>users := users db @ [created]\<rparr>))
   \<and> (\<not> username_taken db (b_username (req_body req))
        \<and> \<not> email_taken db (b_email (req_body req))
        \<and> \<not> isEmail env (b_email (req_body req)) \<longrightarrow>
      response (run (addUser env req) db) = Some (500, RawError ValidationError)
      \<and> final_store (run (addUser env req) db) = db)"
  by (simp add: addUser_run response_def final_store_def Let_def)

theorem addUser_outcomes_witness:
  "response (run (addUser ref_env (credentials ''alice'' ''new@updog.nz'' ''pw'')) ref_db)
     = Some (409, ErrorField ''Username already taken'')
   \<and> response (run (addUser ref_env (credentials ''carol'' ''bob@updog.nz'' ''pw'')) ref_db)
     = Some (409, ErrorField ''Email has already been taken'')
   \<and> response (run (addUser ref_env (credentials ''carol'' ''carol@updog.nz'' ''pw'')) ref_db)
     = Some (201, TokenMessage ''User successfully created'' ''xxx'')
   \<and> users (final_store
         (run (addUser ref_env (credentials ''carol'' ''carol@updog.nz'' ''pw'')) ref_db))
     = [alice, bob,
        \<lparr>user_id = 3, username = ''carol'', email = ''carol@updog.nz'', password = ''#pw'',
         nickname = None\<rparr>]
   \<and> response (run (addUser ref_env (credentials ''carol'' ''qweqwewq'' ''pw'')) ref_db)
     = Some (500, RawError ValidationError)"
  using addUser_outcomes [of ref_db "credentials ''alice'' ''new@updog.nz'' ''pw''" ref_env]
    addUser_outcomes [of ref_db "credentials ''carol'' ''bob@updog.nz'' ''pw''" ref_env]
    addUser_outcomes [of ref_db "credentials ''carol'' ''carol@updog.nz'' ''pw''" ref_env]
    addUser_outcomes [of ref_db "credentials ''carol'' ''qweqwewq'' ''pw''" ref_env]
  by (simp add: ref_defs credentials_def next_id_def Let_def)

subsection \<open>Both engines sort\<close>

lemma mset_insert_element: "mset (insert_element c e rs) = add_mset e (mset rs)"
  by (induction rs) auto

lemma mset_fold_insert: "mset (fold (insert_element c) xs acc) = mset xs + mset acc"
  by (induction xs arbitrary: acc) (auto simp: mset_insert_element)

lemma set_insert_element: "set (insert_element c e rs) = insert e (set rs)"
  by (metis mset_insert_element set_mset_add_mset_insert set_mset_mset)

lemma sorted_insert_element:
  assumes nz: "\<And>a b. c a b \<noteq> 0" and tot: "\<And>a b. c a b < 0 \<or> c b a < 0"
      and tr: "\<And>a b d. c a b < 0 \<Longrightarrow> c b d < 0 \<Longrightarrow> c a d < 0"
      and "sorted_wrt (\<lambda>a b. c b a < 0) rs"
  shows "sorted_wrt (\<lambda>a b. c b a < 0) (insert_element c e rs)"
  using assms(4)
proof (induction rs)
  case Nil then show ?case by simp
next
  case (Cons tmp below)
  have below: "\<forall>y\<in>set below. c y tmp < 0" and srt: "sorted_wrt (\<lambda>a b. c b a < 0) below"
    using Cons.prems by simp_all
  show ?case
  proof (cases "c tmp e > 0")
    case True
    then have "c e tmp < 0" using tot[of tmp e] by auto
    with True below Cons.IH[OF srt] show ?thesis by (simp add: set_insert_element)
  next
    case False
    then have te: "c tmp e < 0" using nz[of tmp e] by (simp add: less_le)
    have "\<forall>y\<in>set below. c y e < 0"
    proof
      fix y assume "y \<in> set below"
      then have "c y tmp < 0" using below by blast
      then show "c y e < 0" using te by (rule tr)
    qed
    with False te below srt show ?thesis by simp
  qed
qed

lemma sorted_fold_insert:
  assumes nz: "\<And>a b. c a b \<noteq> 0" and tot: "\<And>a b. c a b < 0 \<or> c b a < 0"
      and tr: "\<And>a b d. c a b < 0 \<Longrightarrow> c b d < 0 \<Longrightarrow> c a d < 0"
  shows "sorted_wrt (\<lambda>a b. c b a < 0) acc \<Longrightarrow> sorted_wrt (\<lambda>a b. c b a < 0) (fold (insert_element c) xs acc)"
proof (induction xs arbitrary: acc)
  case Nil then show ?case by simp
next
  case (Cons x xs)
  have "sorted_wrt (\<lambda>a b. c b a < 0) (insert_element c x acc)"
    using nz tot tr Cons.prems by (rule sorted_insert_element)
  then show ?case using Cons.IH by simp
qed

lemma engine_sorts_InsertionSort: "engine_sorts InsertionSort"
  unfolding engine_sorts_def InsertionSort_def
proof (intro allI impI conjI)
  fix c :: "'a comparefn" and xs
  assume h: "(\<forall>a b. c a b \<noteq> 0) \<and> (\<forall>a b. c a b < 0 \<or> c b a < 0) \<and> (\<forall>a b d. c a b < 0 \<and> c b d < 0 \<longrightarrow> c a d < 0)"
  show "mset (rev (fold (insert_element c) xs [])) = mset xs" by (simp add: mset_fold_insert)
  have nz: "\<And>a b. c a b \<noteq> 0" and tot: "\<And>a b. c a b < 0 \<or> c b a < 0"
    using h by blast+
  have tr: "\<And>a b d. c a b < 0 \<Longrightarrow> c b d < 0 \<Longrightarrow> c a d < 0"
    using h by blast
  have e: "sorted_wrt (\<lambda>a b. c b a < 0) []" by simp
  have "sorted_wrt (\<lambda>a b. c b a < 0) (fold (insert_element c) xs [])"
    using nz tot tr e by (rule sorted_fold_insert)
  then show "sorted_wrt (\<lambda>a b. c a b < 0) (rev (fold (insert_element c) xs []))"
    by (simp add: sorted_wrt_rev)
qed


lemma binary_search_spec:
  fixes c :: "'a comparefn"
  assumes tot: "\<And>x y. c x y < 0 \<or> c y x < 0"
      and tr: "\<And>x y z. c x y < 0 \<Longrightarrow> c y z < 0 \<Longrightarrow> c x z < 0"
      and srt: "sorted_wrt (\<lambda>x y. c x y < 0) a"
  shows "left \<le> right \<Longrightarrow> right \<le> length a
     \<Longrightarrow> \<forall>i<left. c (a ! i) pivot < 0
     \<Longrightarrow> \<forall>i. right \<le> i \<and> i < length a \<longrightarrow> c pivot (a ! i) < 0
     \<Longrightarrow> binary_search c pivot a left right \<le> length a
       \<and> (\<forall>i<binary_search c pivot a left right. c (a ! i) pivot < 0)
       \<and> (\<forall>i. binary_search c pivot a left right \<le> i \<and> i < length a
              \<longrightarrow> c pivot (a ! i) < 0)"
proof (induction "right - left" arbitrary: left right rule: less_induct)
  case less
  show ?case
  proof (cases "left < right")
    case False
    then have lr: "left = right" using less.prems(1) by simp
    then have "binary_search c pivot a left right = left"
      by (simp add: binary_search.simps)
    with less.prems lr show ?thesis by simp
  next
    case True
    define mid where "mid = left + (right - left) div 2"
    have m: "left \<le> mid" "mid < right" using True by (simp_all add: mid_def)
    have ml: "mid < length a" using m less.prems(2) by simp
    show ?thesis
    proof (cases "c pivot (a ! mid) < 0")
      case lt: True
      have eq: "binary_search c pivot a left right = binary_search c pivot a left mid"
        using True lt by (subst binary_search.simps) (simp add: mid_def Let_def)
      have above: "\<forall>i. mid \<le> i \<and> i < length a \<longrightarrow> c pivot (a ! i) < 0"
      proof (intro allI impI)
        fix i assume i: "mid \<le> i \<and> i < length a"
        show "c pivot (a ! i) < 0"
        proof (cases "i = mid")
          case True with lt show ?thesis by simp
        next
          case False
          then have "mid < i" using i by simp
          then have "c (a ! mid) (a ! i) < 0"
            using srt i by (simp add: sorted_wrt_iff_nth_less)
          with lt show ?thesis by (rule tr)
        qed
      qed
      have "mid - left < right - left" using m by simp
      from less.hyps[OF this m(1) _ less.prems(3) above] ml
      show ?thesis unfolding eq by simp
    next
      case ge: False
      then have mp: "c (a ! mid) pivot < 0" using tot[of pivot "a ! mid"] by simp
      have eq: "binary_search c pivot a left right = binary_search c pivot a (mid + 1) right"
        using True ge by (subst binary_search.simps) (simp add: mid_def Let_def)
      have below: "\<forall>i<mid + 1. c (a ! i) pivot < 0"
      proof (intro allI impI)
        fix i assume i: "i < mid + 1"
        show "c (a ! i) pivot < 0"
        proof (cases "i = mid")
          case True with mp show ?thesis by simp
        next
          case False
          then have "i < mid" using i by simp
          then have "c (a ! i) (a ! mid) < 0"
            using srt ml by (simp add: sorted_wrt_iff_nth_less)
          then show ?thesis using mp by (rule tr)
        qed
      qed
      have "right - (mid + 1) < right - left" using m by simp
      from less.hyps[OF this _ less.prems(2) below less.prems(4)] m
      show ?thesis unfolding eq by simp
    qed
  qed
qed

text \<open>The binary search returns the place of the pivot in a sorted run.\<close>

lemma mset_take_drop_id: "mset (take k a) + mset (drop k a) = mset a"
proof -
  have "mset (take k a @ drop k a) = mset a"
    by (simp only: append_take_drop_id)
  then show ?thesis by (simp only: mset_append)
qed

lemma mset_binary_insert: "mset (binary_insert c pivot a) = add_mset pivot (mset a)"
proof -
  define k where "k = binary_search c pivot a 0 (length a)"
  have "mset (take k a) + mset (drop k a) = mset a"
    by (rule mset_take_drop_id)
  then show ?thesis by (simp add: binary_insert_def k_def Let_def)
qed

lemma sorted_binary_insert:
  fixes c :: "'a comparefn"
  assumes tot: "\<And>x y. c x y < 0 \<or> c y x < 0"
      and tr: "\<And>x y z. c x y < 0 \<Longrightarrow> c y z < 0 \<Longrightarrow> c x z < 0"
      and srt: "sorted_wrt (\<lambda>x y. c x y < 0) a"
  shows "sorted_wrt (\<lambda>x y. c x y < 0) (binary_insert c pivot a)"
proof -
  define k where "k = binary_search c pivot a 0 (length a)"
  have spec: "k \<le> length a \<and> (\<forall>i<k. c (a ! i) pivot < 0)
       \<and> (\<forall>i. k \<le> i \<and> i < length a \<longrightarrow> c pivot (a ! i) < 0)"
    unfolding k_def using tot tr srt by (rule binary_search_spec) simp_all
  have lo: "\<forall>x\<in>set (take k a). c x pivot < 0"
  proof
    fix x assume "x \<in> set (take k a)"
    then obtain i where "i < length (take k a)" "take k a ! i = x"
      by (auto simp: in_set_conv_nth)
    then show "c x pivot < 0" using spec by auto
  qed
  have hi: "\<forall>y\<in>set (drop k a). c pivot y < 0"
  proof
    fix y assume "y \<in> set (drop k a)"
    then obtain i where i: "i < length (drop k a)" "drop k a ! i = y"
      by (auto simp: in_set_conv_nth)
    then have "k \<le> k + i" "k + i < length a" "a ! (k + i) = y"
      using spec by simp_all
    then show "c pivot y < 0" using spec by blast
  qed
  have lohi: "\<forall>x\<in>set (take k a). \<forall>y\<in>set (drop k a). c x y < 0"
  proof (intro ballI)
    fix x y assume "x \<in> set (take k a)" "y \<in> set (drop k a)"
    then have "c x pivot < 0" "c pivot y < 0" using lo hi by blast+
    then show "c x y < 0" by (rule tr)
  qed
  have "sorted_wrt (\<lambda>x y. c x y < 0) (take k a)" "sorted_wrt (\<lambda>x y. c x y < 0) (drop k a)"
    using srt by (simp_all add: sorted_wrt_take sorted_wrt_drop)
  with lo hi lohi have "sorted_wrt (\<lambda>x y. c x y < 0) (take k a @ pivot # drop k a)"
    by (simp add: sorted_wrt_append)
  then show ?thesis by (simp add: binary_insert_def k_def Let_def)
qed

lemma BinaryInsertionSort_sorts:
  fixes c :: "'a comparefn"
  assumes tot: "\<And>x y. c x y < 0 \<or> c y x < 0"
      and tr: "\<And>x y z. c x y < 0 \<Longrightarrow> c y z < 0 \<Longrightarrow> c x z < 0"
  shows "sorted_wrt (\<lambda>x y. c x y < 0) a \<Longrightarrow>
     sorted_wrt (\<lambda>x y. c x y < 0) (BinaryInsertionSort c a rest)
     \<and> mset (BinaryInsertionSort c a rest) = mset a + mset rest"
  unfolding BinaryInsertionSort_def
proof (induction rest arbitrary: a)
  case Nil then show ?case by simp
next
  case (Cons pivot rest)
  have "sorted_wrt (\<lambda>x y. c x y < 0) (binary_insert c pivot a)"
    using tot tr Cons.prems by (rule sorted_binary_insert)
  from Cons.IH[OF this] show ?case by (simp add: mset_binary_insert)
qed


lemma count_run_le: "count_run c d prev rest \<le> length rest"
  by (induction rest arbitrary: prev) (auto simp: Let_def)

lemma count_run_descending:
  fixes c :: "'a comparefn"
  assumes tr: "\<And>x y z. c x y < 0 \<Longrightarrow> c y z < 0 \<Longrightarrow> c x z < 0"
  shows "sorted_wrt (\<lambda>x y. c y x < 0) (prev # take (count_run c True prev rest) rest)"
proof (induction rest arbitrary: prev)
  case Nil then show ?case by simp
next
  case (Cons cur rest)
  show ?case
  proof (cases "c cur prev < 0")
    case False then show ?thesis by (simp add: Let_def)
  next
    case True
    have ih: "sorted_wrt (\<lambda>x y. c y x < 0) (cur # take (count_run c True cur rest) rest)"
      by (rule Cons.IH)
    have "\<forall>y\<in>set (take (count_run c True cur rest) rest). c y prev < 0"
    proof
      fix y assume "y \<in> set (take (count_run c True cur rest) rest)"
      then have "c y cur < 0" using ih by simp
      then show "c y prev < 0" using True by (rule tr)
    qed
    with True ih show ?thesis by (simp add: Let_def)
  qed
qed

lemma count_run_ascending:
  fixes c :: "'a comparefn"
  assumes tot: "\<And>x y. c x y < 0 \<or> c y x < 0"
      and tr: "\<And>x y z. c x y < 0 \<Longrightarrow> c y z < 0 \<Longrightarrow> c x z < 0"
  shows "sorted_wrt (\<lambda>x y. c x y < 0) (prev # take (count_run c False prev rest) rest)"
proof (induction rest arbitrary: prev)
  case Nil then show ?case by simp
next
  case (Cons cur rest)
  show ?case
  proof (cases "c cur prev < 0")
    case True then show ?thesis by (simp add: Let_def)
  next
    case False
    then have pc: "c prev cur < 0" using tot[of cur prev] by simp
    have ih: "sorted_wrt (\<lambda>x y. c x y < 0) (cur # take (count_run c False cur rest) rest)"
      by (rule Cons.IH)
    have "\<forall>y\<in>set (take (count_run c False cur rest) rest). c prev y < 0"
    proof
      fix y assume "y \<in> set (take (count_run c False cur rest) rest)"
      then have "c cur y < 0" using ih by simp
      with pc show "c prev y < 0" by (rule tr)
    qed
    with False pc ih show ?thesis by (simp add: Let_def)
  qed
qed



lemma CountAndMakeRun_spec:
  fixes c :: "'a comparefn"
  assumes tot: "\<And>x y. c x y < 0 \<or> c y x < 0"
      and tr: "\<And>x y z. c x y < 0 \<Longrightarrow> c y z < 0 \<Longrightarrow> c x z < 0"
      and res: "CountAndMakeRun c a = (n, b)"
  shows "sorted_wrt (\<lambda>x y. c x y < 0) (take n b) \<and> mset (take n b) + mset (drop n b) = mset a"
proof (cases "(c, a)" rule: CountAndMakeRun.cases)
  case (1 c')
  with res show ?thesis by auto
next
  case (2 c' x)
  with res show ?thesis by auto
next
  case (3 c' hi lo rest)
  then have a: "a = hi # lo # rest" by simp
  define d where "d = (c lo hi < 0)"
  define m where "m = count_run c d lo rest"
  have "CountAndMakeRun c a =
          (2 + m, if d then rev (take (2 + m) a) @ drop (2 + m) a else a)"
    unfolding a d_def m_def by (simp add: Let_def)
  with res have n: "n = 2 + m"
    and b: "b = (if d then rev (take (2 + m) a) @ drop (2 + m) a else a)"
    by simp_all
  have mle: "m \<le> length rest" unfolding m_def by (rule count_run_le)
  have tk: "take n a = hi # lo # take m rest" by (simp add: a n)
  have "mset b = mset a"
    by (simp add: b mset_take_drop_id)
  then have ms: "mset (take n b) + mset (drop n b) = mset a"
    by (simp only: mset_take_drop_id)
  show ?thesis
  proof (cases d)
    case True
    then have lh: "c lo hi < 0" by (simp add: d_def)
    have run: "sorted_wrt (\<lambda>x y. c y x < 0) (lo # take m rest)"
      unfolding m_def using True count_run_descending[OF tr] by simp
    have "\<forall>y\<in>set (take m rest). c y hi < 0"
    proof
      fix y assume "y \<in> set (take m rest)"
      then have "c y lo < 0" using run by simp
      then show "c y hi < 0" using lh by (rule tr)
    qed
    with run lh have "sorted_wrt (\<lambda>x y. c y x < 0) (hi # lo # take m rest)" by simp
    then have "sorted_wrt (\<lambda>x y. c x y < 0) (rev (take n a))"
      by (simp only: tk sorted_wrt_rev)
    moreover have "take n b = rev (take n a)"
      using True mle by (simp add: b a n)
    ultimately show ?thesis using ms by simp
  next
    case False
    then have hl: "c hi lo < 0" using tot[of lo hi] by (simp add: d_def)
    have run: "sorted_wrt (\<lambda>x y. c x y < 0) (lo # take m rest)"
      unfolding m_def using False count_run_ascending[OF tot tr] by simp
    have "\<forall>y\<in>set (take m rest). c hi y < 0"
    proof
      fix y assume "y \<in> set (take m rest)"
      then have "c lo y < 0" using run by simp
      with hl show "c hi y < 0" by (rule tr)
    qed
    with run hl have "sorted_wrt (\<lambda>x y. c x y < 0) (hi # lo # take m rest)" by simp
    moreover have "take n b = take n a" using False by (simp add: b)
    ultimately show ?thesis using ms by (simp add: tk)
  qed
qed

lemma engine_sorts_ArrayTimSort: "engine_sorts ArrayTimSort"
  unfolding engine_sorts_def
proof (intro allI impI)
  fix c :: "'a comparefn" and xs
  assume h: "(\<forall>a b. c a b \<noteq> 0) \<and> (\<forall>a b. c a b < 0 \<or> c b a < 0) \<and> (\<forall>a b d. c a b < 0 \<and> c b d < 0 \<longrightarrow> c a d < 0)"
  have tot: "\<And>a b. c a b < 0 \<or> c b a < 0"
    using h by blast
  have tr: "\<And>a b d. c a b < 0 \<Longrightarrow> c b d < 0 \<Longrightarrow> c a d < 0"
    using h by blast
  show "mset (ArrayTimSort c xs) = mset xs \<and> sorted_wrt (\<lambda>a b. c a b < 0) (ArrayTimSort c xs)"
  proof (cases "length xs < 2")
    case True
    then have "xs = [] \<or> (\<exists>x. xs = [x])"
      by (cases xs) (auto simp: less_Suc_eq_0_disj)
    with True show ?thesis by (auto simp: ArrayTimSort_def)
  next
    case False
    obtain n b where nb: "CountAndMakeRun c xs = (n, b)" by (cases "CountAndMakeRun c xs")
    have run: "sorted_wrt (\<lambda>x y. c x y < 0) (take n b)"
      and ms: "mset (take n b) + mset (drop n b) = mset xs"
      using CountAndMakeRun_spec[OF tot tr nb] by simp_all
    have eq: "ArrayTimSort c xs = BinaryInsertionSort c (take n b) (drop n b)"
      using False nb by (simp add: ArrayTimSort_def)
    show ?thesis unfolding eq using BinaryInsertionSort_sorts[OF tot tr run] ms by simp
  qed
qed



subsection \<open>The activity feed\<close>

lemma by_timestamp_negative: "by_timestamp a b < 0 \<longleftrightarrow> timestamp b \<le> timestamp a"
  by (simp add: by_timestamp_def)

lemma by_timestamp_positive: "by_timestamp a b > 0 \<longleftrightarrow> timestamp a < timestamp b"
  by (simp add: by_timestamp_def)

lemma by_timestamp_nonzero: "by_timestamp a b \<noteq> 0"
  by (simp add: by_timestamp_def)

lemma engine_sorts_by_timestamp:
  assumes "engine_sorts srt"
  shows "mset (srt by_timestamp xs) = mset xs
       \<and> sorted_wrt (\<lambda>a b. timestamp b \<le> timestamp a) (srt by_timestamp xs)"
proof -
  have nz: "\<forall>a b. by_timestamp a b \<noteq> 0"
    by (simp add: by_timestamp_nonzero)
  have tot: "\<forall>a b. by_timestamp a b < 0 \<or> by_timestamp b a < 0"
    by (auto simp: by_timestamp_negative)
  have tr: "\<forall>a b d. by_timestamp a b < 0 \<and> by_timestamp b d < 0 \<longrightarrow> by_timestamp a d < 0"
    by (auto simp: by_timestamp_negative)
  from assms nz tot tr
  have "mset (srt by_timestamp xs) = mset xs
      \<and> sorted_wrt (\<lambda>a b. by_timestamp a b < 0) (srt by_timestamp xs)"
    unfolding engine_sorts_def by blast
  then show ?thesis by (simp add: by_timestamp_negative)
qed

lemma getUserActivity_run:
  assumes "find (\<lambda>v. username v = param_username req) (users db) = Some u"
      and "\<not> no_token (authorization req)"
      and "extractUser env (authorization req) = Decoded i"
  shows "run (getUserActivity env req) db =
     (Inr (), \<lparr>store = db,
        trace = [FindOne Username (param_username req), ExtractUser (authorization req),
                 FindAll Posts (user_id u), FindAll SharedPosts (user_id u),
                 FindAll LikedPosts (user_id u),
                 Send 200 (ActivityList (array_sort env by_timestamp
                   (posted_entries db u @ liked_entries db u @ shared_entries db u)))]\<rparr>)"
  using assms by (simp add: getUserActivity_def handler_defs guard_defs activity_defs convertToActivity_def Let_def)

text \<open>
  With the comparator of line 158, the insertion sort moves an entry only past entries
  of strictly smaller timestamp: it is the stable insertion sort by timestamp, read from
  the end.
\<close>

lemma insert_element_by_timestamp:
  "insert_element by_timestamp e rs = insort_key timestamp e rs"
  by (induction rs) (auto simp: by_timestamp_def)

lemma InsertionSort_by_timestamp:
  "InsertionSort by_timestamp xs = rev (sort_key timestamp (rev xs))"
proof -
  have "insert_element by_timestamp = insort_key timestamp"
    by (intro ext) (rule insert_element_by_timestamp)
  then have "fold (insert_element by_timestamp) xs [] = foldr (insort_key timestamp) (rev xs) []"
    by (simp add: foldr_conv_fold)
  then show ?thesis by (simp add: InsertionSort_def sort_key_def)
qed

lemma InsertionSort_by_timestamp_stable:
  "filter (\<lambda>e. timestamp e = t) (InsertionSort by_timestamp xs) = filter (\<lambda>e. timestamp e = t) xs"
proof -
  have "filter (\<lambda>e. timestamp e = t) (rev (sort_key timestamp (rev xs)))
      = rev (filter (\<lambda>e. timestamp e = t) (sort_key timestamp (rev xs)))"
    by (simp only: rev_filter)
  also have "\<dots> = rev (filter (\<lambda>e. timestamp e = t) (rev xs))"
    by (simp only: sort_key_stable)
  also have "\<dots> = filter (\<lambda>e. timestamp e = t) xs"
    by (simp add: rev_filter)
  finally show ?thesis by (simp only: InsertionSort_by_timestamp)
qed

text \<open>
  C3. For an existing target user and a request whose token is present and decodes, on
  an engine whose sort returns a permutation, the entries of the get-activity response
  are, counted with multiplicity: for each post the user authored an entry of kind
  POSTED with the post's own id and the post's creation timestamp; for each share record
  of the user an entry of kind SHARED with the referenced post's id (not the share
  record's id) and the share record's creation timestamp; for each like record of the
  user an entry of kind LIKED with the referenced post's id and the like record's
  creation timestamp.
\<close>

theorem getUserActivity_entries:
  assumes "engine_sorts (array_sort env)"
      and "find (\<lambda>v. username v = param_username req) (users db) = Some u"
      and "\<not> no_token (authorization req)"
      and "extractUser env (authorization req) = Decoded i"
  shows "\<exists>acts. response (run (getUserActivity env req) db) = Some (200, ActivityList acts)
       \<and> mset acts =
           mset (map (\<lambda>p. \<lparr>kind = POSTED, postId = post_id p, timestamp = post_createdAt p\<rparr>)
                  (filter (\<lambda>p. author p = user_id u) (posts db)))
         + mset (map (\<lambda>s. \<lparr>kind = SHARED, postId = shared_postId s,
                           timestamp = shared_createdAt s\<rparr>)
                  (filter (\<lambda>s. shared_userID s = user_id u) (sharedPost db)))
         + mset (map (\<lambda>l. \<lparr>kind = LIKED, postId = liked_postId l,
                           timestamp = liked_createdAt l\<rparr>)
                  (filter (\<lambda>l. liked_userID l = user_id u) (likedPost db)))"
proof -
  let ?all = "posted_entries db u @ liked_entries db u @ shared_entries db u"
  have "mset (array_sort env by_timestamp ?all) = mset ?all"
    using engine_sorts_by_timestamp [OF assms(1)] by blast
  then show ?thesis
    by (simp add: getUserActivity_run [OF assms(2-4)] response_def)
qed

theorem getUserActivity_entries_witness:
  "\<exists>acts. response (run (getUserActivity ref_env (on_target (Some ''Bearer xx'') ''alice'')) ref_db)
            = Some (200, ActivityList acts)
        \<and> mset acts = {#\<lparr>kind = POSTED, postId = 10, timestamp = 300\<rparr>#}
                        + {#\<lparr>kind = SHARED, postId = 11, timestamp = 500\<rparr>#}
                        + {#\<lparr>kind = LIKED, postId = 11, timestamp = 300\<rparr>#}"
proof -
  have eng: "engine_sorts (array_sort ref_env)"
    by (simp add: ref_env_def engine_sorts_InsertionSort)
  have tgt: "find (\<lambda>v. username v = param_username (on_target (Some ''Bearer xx'') ''alice''))
               (users ref_db) = Some alice"
    by (simp add: ref_defs fixture_defs)
  have tok: "\<not> no_token (authorization (on_target (Some ''Bearer xx'') ''alice''))"
    by (simp add: ref_defs fixture_defs)
  have dec: "extractUser ref_env (authorization (on_target (Some ''Bearer xx'') ''alice''))
               = Decoded (Some 2)"
    by (simp add: ref_defs fixture_defs)
  from getUserActivity_entries [OF eng tgt tok dec] show ?thesis
    by (simp add: ref_defs fixture_defs)
qed

text \<open>
  C4. For an existing target user (and a request whose token is present and decodes),
  the get-activity response is the concatenation of the POSTED, LIKED and SHARED entry
  sequences, in that order, sorted in descending order of timestamp: it is a permutation
  of the concatenation, and every entry's timestamp is greater than or equal to that of
  every later entry. This holds on every engine whose sort sorts by a comparator of the
  kind passed.
\<close>

theorem getUserActivity_sorted:
  assumes "engine_sorts (array_sort env)"
      and "find (\<lambda>v. username v = param_username req) (users db) = Some u"
      and "\<not> no_token (authorization req)"
      and "extractUser env (authorization req) = Decoded i"
  shows "\<exists>acts. response (run (getUserActivity env req) db) = Some (200, ActivityList acts)
       \<and> mset acts = mset (posted_entries db u @ liked_entries db u @ shared_entries db u)
       \<and> sorted_wrt (\<lambda>a b. timestamp a \<ge> timestamp b) acts"
proof -
  let ?all = "posted_entries db u @ liked_entries db u @ shared_entries db u"
  have "mset (array_sort env by_timestamp ?all) = mset ?all
      \<and> sorted_wrt (\<lambda>a b. timestamp b \<le> timestamp a) (array_sort env by_timestamp ?all)"
    by (rule engine_sorts_by_timestamp [OF assms(1)])
  then show ?thesis
    by (simp add: getUserActivity_run [OF assms(2-4)] response_def)
qed

theorem getUserActivity_sorted_witness:
  "\<exists>acts. response (run (getUserActivity ref_env (on_target (Some ''Bearer xx'') ''alice'')) ref_db)
            = Some (200, ActivityList acts)
        \<and> mset acts = mset [\<lparr>kind = POSTED, postId = 10, timestamp = 300\<rparr>,
                              \<lparr>kind = LIKED, postId = 11, timestamp = 300\<rparr>,
                              \<lparr>kind = SHARED, postId = 11, timestamp = 500\<rparr>]
        \<and> sorted_wrt (\<lambda>a b. timestamp a \<ge> timestamp b) acts"
proof -
  have eng: "engine_sorts (array_sort ref_env)"
    by (simp add: ref_env_def engine_sorts_InsertionSort)
  have tgt: "find (\<lambda>v. username v = param_username (on_target (Some ''Bearer xx'') ''alice''))
               (users ref_db) = Some alice"
    by (simp add: ref_defs fixture_defs)
  have tok: "\<not> no_token (authorization (on_target (Some ''Bearer xx'') ''alice''))"
    by (simp add: ref_defs fixture_defs)
  have dec: "extractUser ref_env (authorization (on_target (Some ''Bearer xx'') ''alice''))
               = Decoded (Some 2)"
    by (simp add: ref_defs fixture_defs)
  from getUserActivity_sorted [OF eng tgt tok dec] show ?thesis
    by (simp add: ref_defs fixture_defs)
qed

text \<open>
  C5, as stated, fails on V8's current sort. Alice's post 10 and her like of post 11
  carry the same timestamp; the concatenation has the POSTED entry first, the response
  has the LIKED entry first. The comparator answers \<open>-1\<close> for the pair in both
  directions, \<^verbatim>\<open>CountAndMakeRun\<close> therefore takes the array as a descending run and
  reverses it.
\<close>

theorem getUserActivity_ties_counterexample:
  "response (run (getUserActivity v8_env (on_target (Some ''Bearer xx'') ''alice'')) ref_db)
     = Some (200, ActivityList
         [\<lparr>kind = SHARED, postId = 11, timestamp = 500\<rparr>,
          \<lparr>kind = LIKED, postId = 11, timestamp = 300\<rparr>,
          \<lparr>kind = POSTED, postId = 10, timestamp = 300\<rparr>])
   \<and> posted_entries ref_db alice @ liked_entries ref_db alice @ shared_entries ref_db alice
     = [\<lparr>kind = POSTED, postId = 10, timestamp = 300\<rparr>,
        \<lparr>kind = LIKED, postId = 11, timestamp = 300\<rparr>,
        \<lparr>kind = SHARED, postId = 11, timestamp = 500\<rparr>]"
  by (simp add: getUserActivity_def handler_defs guard_defs activity_defs ref_defs fixture_defs v8_env_def convertToActivity_def
        by_timestamp_def ArrayTimSort_def BinaryInsertionSort_def Let_def)


text \<open>
  C5, amended. For an existing target user (and a request whose token is present and
  decodes), when the engine's sort is the insertion sort, which moves an entry only past
  entries of strictly smaller timestamp, the entries of any one timestamp appear in the
  response in the order they have in the concatenation: POSTED before LIKED before
  SHARED. The order of ties is the engine's, not the handler's.
\<close>

theorem getUserActivity_ties_InsertionSort:
  assumes "array_sort env = InsertionSort"
      and "find (\<lambda>v. username v = param_username req) (users db) = Some u"
      and "\<not> no_token (authorization req)"
      and "extractUser env (authorization req) = Decoded i"
  shows "\<exists>acts. response (run (getUserActivity env req) db) = Some (200, ActivityList acts)
       \<and> (\<forall>t. filter (\<lambda>e. timestamp e = t) acts
              = filter (\<lambda>e. timestamp e = t)
                  (posted_entries db u @ liked_entries db u @ shared_entries db u))"
proof -
  let ?all = "posted_entries db u @ liked_entries db u @ shared_entries db u"
  have sent: "response (run (getUserActivity env req) db)
      = Some (200, ActivityList (InsertionSort by_timestamp ?all))"
    by (simp add: getUserActivity_run [OF assms(2-4)] assms(1) response_def)
  have "\<forall>t. filter (\<lambda>e. timestamp e = t) (InsertionSort by_timestamp ?all)
          = filter (\<lambda>e. timestamp e = t) ?all"
    by (intro allI) (rule InsertionSort_by_timestamp_stable)
  with sent show ?thesis by blast
qed

theorem getUserActivity_ties_InsertionSort_witness:
  "\<exists>acts. response (run (getUserActivity ref_env (on_target (Some ''Bearer xx'') ''alice'')) ref_db)
            = Some (200, ActivityList acts)
        \<and> filter (\<lambda>e. timestamp e = 300) acts
            = [\<lparr>kind = POSTED, postId = 10, timestamp = 300\<rparr>,
               \<lparr>kind = LIKED, postId = 11, timestamp = 300\<rparr>]"
proof -
  have eng: "array_sort ref_env = InsertionSort"
    by (simp add: ref_env_def)
  have tgt: "find (\<lambda>v. username v = param_username (on_target (Some ''Bearer xx'') ''alice''))
               (users ref_db) = Some alice"
    by (simp add: ref_defs fixture_defs)
  have tok: "\<not> no_token (authorization (on_target (Some ''Bearer xx'') ''alice''))"
    by (simp add: ref_defs fixture_defs)
  have dec: "extractUser ref_env (authorization (on_target (Some ''Bearer xx'') ''alice''))
               = Decoded (Some 2)"
    by (simp add: ref_defs fixture_defs)
  from getUserActivity_ties_InsertionSort [OF eng tgt tok dec]
  obtain acts where sent: "response (run (getUserActivity ref_env
        (on_target (Some ''Bearer xx'') ''alice'')) ref_db) = Some (200, ActivityList acts)"
    and ties: "\<forall>t. filter (\<lambda>e. timestamp e = t) acts
        = filter (\<lambda>e. timestamp e = t) (posted_entries ref_db alice
            @ liked_entries ref_db alice @ shared_entries ref_db alice)"
    by blast
  from ties have "filter (\<lambda>e. timestamp e = 300) acts
        = filter (\<lambda>e. timestamp e = 300) (posted_entries ref_db alice
            @ liked_entries ref_db alice @ shared_entries ref_db alice)"
    by (rule spec)
  then have "filter (\<lambda>e. timestamp e = 300) acts
      = [\<lparr>kind = POSTED, postId = 10, timestamp = 300\<rparr>,
         \<lparr>kind = LIKED, postId = 11, timestamp = 300\<rparr>]"
    by (simp add: ref_defs fixture_defs)
  with sent show ?thesis by blast
qed

subsection \<open>Logging in\<close>

lemma authenticateUser_run:
  "run (authenticateUser env req) db =
     (case find (\<lambda>v. email v = b_email (req_body req)) (users db) of
        None \<Rightarrow>
          (Inr (), \<lparr>store = db,
             trace = [FindOne Email (b_email (req_body req)),
                      Send 401 (ErrorField ''Incorrect email or password'')]\<rparr>)
      | Some u \<Rightarrow>
          (Inr (), \<lparr>store = db,
             trace = [FindOne Email (b_email (req_body req)),
                      if validatePassword env u (b_password (req_body req))
                      then Send 200 (TokenMessage ''Authentication successful''
                                       (generateAuthToken env u))
                      else Send 401 (ErrorField ''Incorrect email or password'')]\<rparr>))"
  by (simp add: authenticateUser_def handler_defs split: option.split)

text \<open>
  Where the stored addresses are distinct, the lookup by a stored user's address returns
  that user; \<^verbatim>\<open>addUser\<close> keeps the stored addresses distinct.
\<close>

lemma find_distinct_email:
  "distinct (map email us) \<Longrightarrow> u \<in> set us \<Longrightarrow> find (\<lambda>v. email v = email u) us = Some u"
proof (induction us)
  case Nil then show ?case by simp
next
  case (Cons w us)
  show ?case
  proof (cases "w = u")
    case True then show ?thesis by simp
  next
    case False
    with Cons.prems have mem: "u \<in> set us" by simp
    then have "email u \<in> email ` set us" by (rule imageI)
    with Cons.prems have "email w \<noteq> email u" by auto
    with Cons mem show ?thesis by simp
  qed
qed

lemma addUser_keeps_emails_distinct:
  assumes "distinct (map email (users db))"
  shows "distinct (map email (users (final_store (run (addUser env req) db))))"
proof (cases "email_taken db (b_email (req_body req))")
  case True
  with assms show ?thesis by (simp add: addUser_run final_store_def)
next
  case False
  then have "b_email (req_body req) \<notin> email ` set (users db)" by auto
  with assms show ?thesis by (simp add: addUser_run final_store_def Let_def)
qed

text \<open>
  C7, as stated, fails on a store in which stored users share an e-mail address: the
  lookup returns the first row with the address. Ben logs in with his address and his
  correct password and receives a token that decodes to Ann's id; Cat logs in with her
  address and her correct password and is answered 401.
\<close>

theorem authenticateUser_shared_email_counterexample:
  "users shared_email_db = [ann, ben, cat]
   \<and> email ben = ''TEST@GMAIL.COM'' \<and> validatePassword ref_env ben ''PASSWORD''
   \<and> user_id ben = 2
   \<and> response (run (authenticateUser ref_env (credentials [] ''TEST@GMAIL.COM'' ''PASSWORD''))
         shared_email_db)
       = Some (200, TokenMessage ''Authentication successful'' ''x'')
   \<and> extractUser ref_env (Some ''Bearer x'') = Decoded (Some 1)
   \<and> email cat = ''TEST@GMAIL.COM'' \<and> validatePassword ref_env cat ''hunter2''
   \<and> response (run (authenticateUser ref_env (credentials [] ''TEST@GMAIL.COM'' ''hunter2''))
         shared_email_db)
       = Some (401, ErrorField ''Incorrect email or password'')"
  by (simp add: authenticateUser_run response_def ref_defs credentials_def
        shared_email_db_def ann_def ben_def cat_def)

text \<open>
  C7, amended. For every stored user that the lookup by e-mail address returns for the
  user's own address (the first stored row with that address; every stored user when the
  stored addresses are distinct): a log-in with that address and a password that
  \<^verbatim>\<open>validatePassword\<close> accepts for the user is answered 200 with a token, and the
  token, sent back as \<^verbatim>\<open>Bearer <token>\<close>, decodes to that user's id (given that the
  token service decodes what it issues for the user); a log-in with that address and a
  password that does not verify against that user's stored hash is answered 401 with the
  body \<^verbatim>\<open>{error: "Incorrect email or password"}\<close>, and so is a log-in with an address
  that no stored user has.
\<close>

theorem authenticateUser_first_match:
  assumes "find (\<lambda>v. email v = email u) (users db) = Some u"
      and "extractUser env (Some (''Bearer '' @ generateAuthToken env u))
             = Decoded (Some (user_id u))"
  shows "(b_email (req_body req) = email u
            \<and> validatePassword env u (b_password (req_body req)) \<longrightarrow>
            (\<exists>authToken. response (run (authenticateUser env req) db)
                 = Some (200, TokenMessage ''Authentication successful'' authToken)
               \<and> extractUser env (Some (''Bearer '' @ authToken))
                   = Decoded (Some (user_id u))))
       \<and> (b_email (req_body req) = email u
            \<and> \<not> validatePassword env u (b_password (req_body req)) \<longrightarrow>
            response (run (authenticateUser env req) db)
              = Some (401, ErrorField ''Incorrect email or password''))
       \<and> (\<not> email_taken db (b_email (req_body req)) \<longrightarrow>
            response (run (authenticateUser env req) db)
              = Some (401, ErrorField ''Incorrect email or password''))"
proof (intro conjI impI)
  assume h: "b_email (req_body req) = email u
               \<and> validatePassword env u (b_password (req_body req))"
  with assms(1) have "response (run (authenticateUser env req) db)
      = Some (200, TokenMessage ''Authentication successful'' (generateAuthToken env u))"
    by (simp add: authenticateUser_run response_def)
  with assms(2) show "\<exists>authToken. response (run (authenticateUser env req) db)
                 = Some (200, TokenMessage ''Authentication successful'' authToken)
               \<and> extractUser env (Some (''Bearer '' @ authToken))
                   = Decoded (Some (user_id u))"
    by blast
next
  assume h: "b_email (req_body req) = email u
               \<and> \<not> validatePassword env u (b_password (req_body req))"
  with assms(1) show "response (run (authenticateUser env req) db)
      = Some (401, ErrorField ''Incorrect email or password'')"
    by (simp add: authenticateUser_run response_def)
next
  assume "\<not> email_taken db (b_email (req_body req))"
  then have "find (\<lambda>v. email v = b_email (req_body req)) (users db) = None"
    by (simp add: find_email_None)
  then show "response (run (authenticateUser env req) db)
      = Some (401, ErrorField ''Incorrect email or password'')"
    by (simp add: authenticateUser_run response_def)
qed

theorem authenticateUser_first_match_witness:
  "(\<exists>authToken.
      response (run (authenticateUser ref_env (credentials [] ''bob@updog.nz'' ''hunter2'')) ref_db)
        = Some (200, TokenMessage ''Authentication successful'' authToken)
      \<and> extractUser ref_env (Some (''Bearer '' @ authToken)) = Decoded (Some 2))
   \<and> response (run (authenticateUser ref_env (credentials [] ''bob@updog.nz'' ''WrongPassword''))
         ref_db)
       = Some (401, ErrorField ''Incorrect email or password'')
   \<and> response (run (authenticateUser ref_env (credentials [] ''wrong@email.com'' ''hunter2''))
         ref_db)
       = Some (401, ErrorField ''Incorrect email or password'')"
proof -
  have d: "distinct (map email (users ref_db))" by (simp add: ref_defs)
  have m: "bob \<in> set (users ref_db)" by (simp add: ref_defs)
  have f: "find (\<lambda>v. email v = email bob) (users ref_db) = Some bob"
    using d m by (rule find_distinct_email)
  have r: "extractUser ref_env (Some (''Bearer '' @ generateAuthToken ref_env bob))
             = Decoded (Some (user_id bob))"
    by (simp add: ref_defs)
  show ?thesis
    using authenticateUser_first_match [OF f r, of "credentials [] ''bob@updog.nz'' ''hunter2''"]
      authenticateUser_first_match [OF f r, of "credentials [] ''bob@updog.nz'' ''WrongPassword''"]
      authenticateUser_first_match [OF f r, of "credentials [] ''wrong@email.com'' ''hunter2''"]
    by (simp add: ref_defs credentials_def)
qed

subsection \<open>Deleting and updating a profile\<close>

text \<open>
  What the two guarded mutations do for a request whose token is present and decodes.
\<close>

lemma deleteUserByUsername_run:
  assumes "\<not> no_token (authorization req)"
      and "extractUser env (authorization req) = Decoded i"
  shows "run (deleteUserByUsername env req) db =
     (if username_taken db (param_username req)
      then (Inr (),
             \<lparr>store = db\<lparr>users := filter (\<lambda>u. username u \<noteq> param_username req)
                                     (concurrent_writes env (users db))\<rparr>,
              trace = [FindOne Username (param_username req), ExtractUser (authorization req),
                       Destroy (param_username req),
                       if length (filter (\<lambda>u. username u = param_username req)
                                    (concurrent_writes env (users db))) \<noteq> 0
                       then Send 200 (Text ''The user has been deleted.'')
                       else Send 500 (Text ''Failed to destroy the user.'')]\<rparr>)
      else (Inr (), \<lparr>store = db,
              trace = [FindOne Username (param_username req), ExtractUser (authorization req),
                       Send 404 (Text ''Invalid username.'')]\<rparr>))"
proof (cases "find (\<lambda>u. username u = param_username req) (users db)")
  case None
  then have "\<not> username_taken db (param_username req)" by (simp add: find_username_None)
  with None assms show ?thesis
    by (simp add: deleteUserByUsername_def handler_defs guard_defs destroy_def)
next
  case (Some u)
  then have "username_taken db (param_username req)"
    using find_username_None [of "param_username req" db] by simp
  with Some assms show ?thesis
    by (simp add: deleteUserByUsername_def handler_defs guard_defs destroy_def Let_def)
qed


lemma modifyUserByUsername_run:
  assumes "\<not> no_token (authorization req)"
      and "extractUser env (authorization req) = Decoded i"
  shows "run (modifyUserByUsername env req) db =
     (if username_taken db (param_username req)
      then (case userOfInterest db of
              None \<Rightarrow>
                (Inr (), \<lparr>store = db,
                   trace = [FindOne Username (param_username req),
                            ExtractUser (authorization req),
                            Send 500 (RawError TypeError)]\<rparr>)
            | Some rows \<Rightarrow>
                (Inr (), \<lparr>store = db\<lparr>userOfInterest := Some (map (\<lambda>u.
                             if username u = param_username req
                             then apply_fields (req_body req) u else u) rows)\<rparr>,
                   trace = [FindOne Username (param_username req),
                            ExtractUser (authorization req),
                            Update (param_username req),
                            Send 200 (Text ''The profile has been updated.'')]\<rparr>))
      else (Inr (), \<lparr>store = db,
              trace = [FindOne Username (param_username req), ExtractUser (authorization req),
                       Send 404 (Text ''Invalid username.'')]\<rparr>))"
proof (cases "find (\<lambda>u. username u = param_username req) (users db)")
  case None
  then have "\<not> username_taken db (param_username req)" by (simp add: find_username_None)
  with None assms show ?thesis
    by (simp add: modifyUserByUsername_def handler_defs guard_defs
          update_userOfInterest_def array_truthy_def)
next
  case (Some u)
  then have "username_taken db (param_username req)"
    using find_username_None [of "param_username req" db] by simp
  with Some assms show ?thesis
    by (cases "userOfInterest db")
      (simp_all add: modifyUserByUsername_def handler_defs guard_defs
         update_userOfInterest_def array_truthy_def)
qed

text \<open>No run of the update handler changes the users table.\<close>

lemma modifyUserByUsername_users_unchanged:
  "users (final_store (run (modifyUserByUsername env req) db)) = users db"
  by (simp add: modifyUserByUsername_def handler_defs guard_defs
        update_userOfInterest_def array_truthy_def
      split: extracted.split option.split)

lemma modifyUserByUsername_registry_undefined:
  assumes "userOfInterest db = None"
      and "username_taken db (param_username req)"
      and "\<not> no_token (authorization req)"
      and "extractUser env (authorization req) = Decoded i"
  shows "response (run (modifyUserByUsername env req) db) = Some (500, RawError TypeError)
       \<and> final_store (run (modifyUserByUsername env req) db) = db"
  using assms(1,2)
  by (simp add: modifyUserByUsername_run [OF assms(3,4)] response_def final_store_def)

text \<open>
  The delete handler never compares the decoded identity with the target: for two tokens
  that are present and decode, to whatever identities, the response and the store are
  the same.
\<close>

lemma deleteUserByUsername_ignores_identity:
  assumes "\<not> no_token t1" and "\<not> no_token t2"
      and "extractUser env t1 = Decoded i1" and "extractUser env t2 = Decoded i2"
  shows "response (run (deleteUserByUsername env (req\<lparr>authorization := t1\<rparr>)) db)
           = response (run (deleteUserByUsername env (req\<lparr>authorization := t2\<rparr>)) db)
       \<and> final_store (run (deleteUserByUsername env (req\<lparr>authorization := t1\<rparr>)) db)
           = final_store (run (deleteUserByUsername env (req\<lparr>authorization := t2\<rparr>)) db)"
proof -
  have a1: "\<not> no_token (authorization (req\<lparr>authorization := t1\<rparr>))"
    and a2: "\<not> no_token (authorization (req\<lparr>authorization := t2\<rparr>))"
    using assms(1,2) by simp_all
  have e1: "extractUser env (authorization (req\<lparr>authorization := t1\<rparr>)) = Decoded i1"
    and e2: "extractUser env (authorization (req\<lparr>authorization := t2\<rparr>)) = Decoded i2"
    using assms(3,4) by simp_all
  show ?thesis
    by (simp add: deleteUserByUsername_run [OF a1 e1] deleteUserByUsername_run [OF a2 e2]
          response_def final_store_def)
qed



text \<open>
  C1, at a failing input. Alice exists, the token is present and decodes to her id, and
  the body supplies nickname, e-mail address and password. The registry defines no
  model named \<^verbatim>\<open>userOfInterest\<close>, so line 198 throws a TypeError: the handler's
  \<^verbatim>\<open>catch\<close> answers 500 with the raw error, \<^verbatim>\<open>update\<close> is never called and the store
  is unchanged. The claim says the fields are applied and the response is 200.
\<close>

theorem modifyUserByUsername_valid_request_fails:
  "username_taken ref_db ''alice''
   \<and> extractUser ref_env (Some ''Bearer x'') = Decoded (Some 1)
   \<and> response (run (modifyUserByUsername ref_env (profile_update (Some ''Bearer x'') ''alice'')) ref_db)
       = Some (500, RawError TypeError)
   \<and> steps (run (modifyUserByUsername ref_env (profile_update (Some ''Bearer x'') ''alice'')) ref_db)
       = [FindOne Username ''alice'', ExtractUser (Some ''Bearer x''), Send 500 (RawError TypeError)]
   \<and> final_store (run (modifyUserByUsername ref_env (profile_update (Some ''Bearer x'') ''alice'')) ref_db)
       = ref_db"
  by (simp add: modifyUserByUsername_def handler_defs guard_defs update_userOfInterest_def array_truthy_def
        ref_defs profile_update_def)

text \<open>
  C2, at a failing input. Alice is the target and the token is present and decodes to
  Bob's id. The delete handler permits and applies the mutation: the response is 200
  and Alice's row is removed. The update handler does not apply it: the request passes
  the guard, which never looks at the decoded identity, and then line 198 throws as at
  C1; the response is 500 and the store is unchanged. The claim says that the update is
  applied as the delete is.
\<close>

theorem update_by_other_identity_not_applied:
  "username_taken ref_db ''alice''
   \<and> extractUser ref_env (Some ''Bearer xx'') = Decoded (Some 2)
   \<and> response (run (deleteUserByUsername ref_env (on_target (Some ''Bearer xx'') ''alice'')) ref_db)
       = Some (200, Text ''The user has been deleted.'')
   \<and> users (final_store
        (run (deleteUserByUsername ref_env (on_target (Some ''Bearer xx'') ''alice'')) ref_db))
       = [bob]
   \<and> response (run (modifyUserByUsername ref_env (profile_update (Some ''Bearer xx'') ''alice'')) ref_db)
       = Some (500, RawError TypeError)
   \<and> steps (run (modifyUserByUsername ref_env (profile_update (Some ''Bearer xx'') ''alice'')) ref_db)
       = [FindOne Username ''alice'', ExtractUser (Some ''Bearer xx''), Send 500 (RawError TypeError)]
   \<and> final_store (run (modifyUserByUsername ref_env (profile_update (Some ''Bearer xx'') ''alice'')) ref_db)
       = ref_db"
  by (simp add: modifyUserByUsername_def deleteUserByUsername_def handler_defs guard_defs
        update_userOfInterest_def array_truthy_def destroy_def Let_def
        ref_defs fixture_defs profile_update_def)

text \<open>
  After the 400 response for a missing token neither handler returns: the next step is
  the call of \<^verbatim>\<open>extractUser\<close> on the missing token.
\<close>

lemma no_token_handler_continues:
  assumes "no_token (authorization req)"
  shows "response (run (modifyUserByUsername env req) db)
           = Some (400, ErrorMessage ''Auth token not provided'')
       \<and> take 3 (steps (run (modifyUserByUsername env req) db))
           = [FindOne Username (param_username req),
              Send 400 (ErrorMessage ''Auth token not provided''),
              ExtractUser (authorization req)]
       \<and> response (run (deleteUserByUsername env req) db)
           = Some (400, ErrorMessage ''Auth token not provided'')
       \<and> take 3 (steps (run (deleteUserByUsername env req) db))
           = [FindOne Username (param_username req),
              Send 400 (ErrorMessage ''Auth token not provided''),
              ExtractUser (authorization req)]"
  using assms
  by (simp add: modifyUserByUsername_def deleteUserByUsername_def handler_defs guard_defs destroy_def
      update_userOfInterest_def array_truthy_def Let_def
      split: extracted.split option.split)

text \<open>
  C6, at a failing input: a delete request with no \<^verbatim>\<open>Authorization\<close> header, the
  target existing. The client receives 400, but the handler does not stop there: it goes
  on to call \<^verbatim>\<open>extractUser\<close>. With the decoder that throws, the run ends in the
  handler's \<^verbatim>\<open>catch\<close>; with the decoder that returns a payload without id, the
  handler goes on to \<^verbatim>\<open>destroy\<close> and the target's row is removed. The claim says that
  no step runs after the rejection and that the store is unchanged.
\<close>

theorem deleteUserByUsername_no_token_continues:
  "response (run (deleteUserByUsername ref_env (on_target None ''alice'')) ref_db)
     = Some (400, ErrorMessage ''Auth token not provided'')
   \<and> steps (run (deleteUserByUsername ref_env (on_target None ''alice'')) ref_db)
     = [FindOne Username ''alice'', Send 400 (ErrorMessage ''Auth token not provided''),
        ExtractUser None]
   \<and> response (run (deleteUserByUsername lenient_env (on_target None ''alice'')) ref_db)
     = Some (400, ErrorMessage ''Auth token not provided'')
   \<and> steps (run (deleteUserByUsername lenient_env (on_target None ''alice'')) ref_db)
     = [FindOne Username ''alice'', Send 400 (ErrorMessage ''Auth token not provided''),
        ExtractUser None, Destroy ''alice'']
   \<and> users (final_store (run (deleteUserByUsername lenient_env (on_target None ''alice'')) ref_db))
     = [bob]"
  by (simp add: deleteUserByUsername_def handler_defs guard_defs destroy_def Let_def
        ref_defs fixture_defs lenient_extractUser_def lenient_env_def)

end
